theory Spec2Isabelle
  imports Complex_Main "HOL-Library.Multiset" "HOL-Library.AList"
begin

section \<open>Kilter heatmap: the colour and quantile logic of \<^verbatim>\<open>script.js\<close>\<close>

text \<open>
  The numbers that reach the classifier are JavaScript numbers holding non-negative
  integers; the model keeps the integer, as a \<^typ>\<open>nat\<close>. The classifier compares them
  and takes the sign of a difference, which rounding does not change.

  Reading an array at a position, \<^verbatim>\<open>xs[i]\<close>, gives \<^verbatim>\<open>undefined\<close> when the position is
  not below the length. \<^verbatim>\<open>undefined\<close> is \<open>None\<close> here, so an array that may hold it is a
  list of options.
\<close>

definition at_index :: "'a list \<Rightarrow> nat \<Rightarrow> 'a option" where
  "at_index xs i = (if i < length xs then Some (xs ! i) else None)"

text \<open>
  \<^verbatim>\<open>quantiles[i]\<close> for an array whose elements may themselves be \<^verbatim>\<open>undefined\<close>.
\<close>

definition quantile_at :: "nat option list \<Rightarrow> nat \<Rightarrow> nat option" where
  "quantile_at quantiles i = (case at_index quantiles i of None \<Rightarrow> None | Some v \<Rightarrow> v)"

text \<open>
  \<^verbatim>\<open>value >= c\<close> on numbers; a comparison with \<^verbatim>\<open>undefined\<close> is false.
\<close>

fun num_ge :: "nat \<Rightarrow> nat option \<Rightarrow> bool" where
  "num_ge v None = False"
| "num_ge v (Some c) = (c \<le> v)"

text \<open>
  \<^verbatim>\<open>
  function getPercentileColor(value, quantiles) {
    if (value === 0) return "transparent";
    if (value >= quantiles[4]) return "#bd0026"; // top 5%
    if (value >= quantiles[3]) return "#fd8d3c"; // next 15%
    if (value >= quantiles[2]) return "#fecc5c"; // middle 30%
    if (value >= quantiles[1]) return "#ffffb2"; // next 20%
    return "#d4f7b2"; // bottom 30%
  }
  \<close>
\<close>

definition getPercentileColor :: "nat \<Rightarrow> nat option list \<Rightarrow> string" where
  "getPercentileColor v quantiles =
     (if v = 0 then ''transparent''
      else if num_ge v (quantile_at quantiles 4) then ''#bd0026''
      else if num_ge v (quantile_at quantiles 3) then ''#fd8d3c''
      else if num_ge v (quantile_at quantiles 2) then ''#fecc5c''
      else if num_ge v (quantile_at quantiles 1) then ''#ffffb2''
      else ''#d4f7b2'')"

text \<open>
  The comparator \<^verbatim>\<open>(a, b) => a - b\<close> and \<^verbatim>\<open>Array.prototype.sort\<close> with it. The
  language fixes the result of a sort with a consistent comparator (a stable ordering of the
  elements) and leaves the algorithm open; the model inserts each element in front of the
  first element it does not compare greater than.
\<close>

definition compareNumbers :: "nat \<Rightarrow> nat \<Rightarrow> int" where
  "compareNumbers a b = int a - int b"

fun insert_sorted :: "('a \<Rightarrow> 'a \<Rightarrow> int) \<Rightarrow> 'a \<Rightarrow> 'a list \<Rightarrow> 'a list" where
  "insert_sorted cmp x [] = [x]"
| "insert_sorted cmp x (y # ys) =
     (if cmp x y \<le> 0 then x # y # ys else y # insert_sorted cmp x ys)"

fun array_sort :: "('a \<Rightarrow> 'a \<Rightarrow> int) \<Rightarrow> 'a list \<Rightarrow> 'a list" where
  "array_sort cmp [] = []"
| "array_sort cmp (x # xs) = insert_sorted cmp x (array_sort cmp xs)"

text \<open>
  \<^verbatim>\<open>const idx = (q) => Math.floor(q * sorted.length);\<close>
  The literals \<^verbatim>\<open>0.3\<close>, \<^verbatim>\<open>0.5\<close>, \<^verbatim>\<open>0.85\<close>, \<^verbatim>\<open>0.95\<close> are read as the rationals
  they denote and the product is exact: for every array length (below \<open>2^32\<close>) the
  double-precision product has the same floor, since each literal's relative rounding error
  is below \<open>2^-54\<close> and a non-integral product lies at least \<open>1/20\<close> from the next integer.
\<close>

definition idx :: "'a list \<Rightarrow> rat \<Rightarrow> nat" where
  "idx sorted_vals q = nat \<lfloor>q * of_nat (length sorted_vals)\<rfloor>"

text \<open>
  \<^verbatim>\<open>
  function computeQuantiles(values) {
    if (!values.length) return [0, 0, 0, 0, 0];
    const sorted = [...values].sort((a, b) => a - b);
    const idx = (q) => Math.floor(q * sorted.length);
    return [ sorted[0], sorted[idx(0.3)], sorted[idx(0.5)], sorted[idx(0.85)], sorted[idx(0.95)] ];
  }
  \<close>
  The value computed, as a function of the contents of \<^verbatim>\<open>values\<close>.
\<close>

definition computeQuantiles :: "nat list \<Rightarrow> nat option list" where
  "computeQuantiles vals =
     (if length vals = 0 then [Some 0, Some 0, Some 0, Some 0, Some 0]
      else let sorted_vals = array_sort compareNumbers vals in
        [at_index sorted_vals 0,
         at_index sorted_vals (idx sorted_vals (3 / 10)),
         at_index sorted_vals (idx sorted_vals (5 / 10)),
         at_index sorted_vals (idx sorted_vals (85 / 100)),
         at_index sorted_vals (idx sorted_vals (95 / 100))])"

text \<open>
  The same function over an explicit store of arrays, to follow which array each step
  reads and writes. A reference is a position in the store; \<^verbatim>\<open>[...values]\<close> allocates a
  new array with the contents of \<^verbatim>\<open>values\<close>, and \<^verbatim>\<open>.sort(...)\<close> sorts the array it is
  called on in place and returns the same reference. A reference outside the store does
  not occur in a running program; the model answers \<open>None\<close> for it.
\<close>

type_synonym ref = nat
type_synonym heap = "nat list list"

definition deref :: "heap \<Rightarrow> ref \<Rightarrow> nat list option" where
  "deref h r = at_index h r"

definition alloc :: "heap \<Rightarrow> nat list \<Rightarrow> ref \<times> heap" where
  "alloc h xs = (length h, h @ [xs])"

definition spread_copy :: "heap \<Rightarrow> ref \<Rightarrow> (ref \<times> heap) option" where
  "spread_copy h r = (case deref h r of None \<Rightarrow> None | Some xs \<Rightarrow> Some (alloc h xs))"

definition sort_in_place :: "heap \<Rightarrow> ref \<Rightarrow> (ref \<times> heap) option" where
  "sort_in_place h r =
     (case deref h r of None \<Rightarrow> None
      | Some xs \<Rightarrow> Some (r, h[r := array_sort compareNumbers xs]))"

definition computeQuantiles_heap :: "heap \<Rightarrow> ref \<Rightarrow> (nat option list \<times> heap) option" where
  "computeQuantiles_heap h vals =
     (case deref h vals of None \<Rightarrow> None
      | Some vs \<Rightarrow>
          if length vs = 0 then Some ([Some 0, Some 0, Some 0, Some 0, Some 0], h)
          else (case spread_copy h vals of None \<Rightarrow> None
            | Some (copy, h1) \<Rightarrow>
               (case sort_in_place h1 copy of None \<Rightarrow> None
                | Some (sorted_ref, h2) \<Rightarrow>
                   (case deref h2 sorted_ref of None \<Rightarrow> None
                    | Some sorted_vals \<Rightarrow>
                        Some ([at_index sorted_vals 0,
                               at_index sorted_vals (idx sorted_vals (3 / 10)),
                               at_index sorted_vals (idx sorted_vals (5 / 10)),
                               at_index sorted_vals (idx sorted_vals (85 / 100)),
                               at_index sorted_vals (idx sorted_vals (95 / 100))], h2)))))"

section \<open>Values, numbers and objects of the aggregation\<close>

text \<open>
  A count is a JavaScript number holding a non-negative integer; the model keeps the
  integer, as a \<^typ>\<open>nat\<close>. Adding two numbers rounds the exact sum to the nearest double,
  ties to the even significand: integers up to \<open>2^53\<close> are all doubles, a larger one has a
  significand of 53 bits. \<open>bit_len n\<close> is the number of binary digits of \<open>n\<close>.
\<close>

function bit_len :: "nat \<Rightarrow> nat" where
  "bit_len n = (if n = 0 then 0 else Suc (bit_len (n div 2)))"
  by pat_completeness auto
termination
  by (relation "measure (\<lambda>n. n)") auto

declare bit_len.simps [simp del]

definition round_double :: "nat \<Rightarrow> nat" where
  "round_double n =
     (if n \<le> 2 ^ 53 then n
      else let ulp = 2 ^ (bit_len n - 53); q = n div ulp; r = n mod ulp
           in if 2 * r < ulp then q * ulp
              else if ulp < 2 * r then (q + 1) * ulp
              else if even q then q * ulp
              else (q + 1) * ulp)"

text \<open>
  The decimal digits of a number, as \<^verbatim>\<open>String(n)\<close> gives them for an integer up to
  \<open>2^53\<close> (beyond, the language prints the shortest digits that identify the double).
\<close>

function digits_of :: "nat \<Rightarrow> string" where
  "digits_of n =
     (if n < 10 then [''0123456789'' ! n]
      else digits_of (n div 10) @ [''0123456789'' ! (n mod 10)])"
  by pat_completeness auto
termination
  by (relation "measure (\<lambda>n. n)") auto

declare digits_of.simps [simp del]

text \<open>
  The values that a count, a total or a usage can take in a run:
  \<^item> \<open>Num n\<close>, a number;
  \<^item> \<open>Builtin k\<close>, what a plain object inherits under the name \<open>k\<close>: a method of
    \<^verbatim>\<open>Object.prototype\<close>, or \<^verbatim>\<open>Object.prototype\<close> itself for \<^verbatim>\<open>__proto__\<close>;
  \<^item> \<open>Str pre k rest\<close>, a string: the characters \<open>pre\<close>, then the text of the built-in
    \<open>k\<close>, then \<open>rest\<close>. A string arises only where \<^verbatim>\<open>+\<close> meets a built-in, so each holds
    the text of one, and none reads as a number. The text of a built-in depends on the
    engine (\<^verbatim>\<open>function toString() { [native code] }\<close>); it is kept as the piece
    \<open>Native k\<close>.
\<close>

datatype piece = Native string | Ch char

datatype jsval = Num nat | Str string string "piece list" | Builtin string

text \<open>
  A run of the model ends with a value (\<open>Inr\<close>) or stops (\<open>Inl\<close>): with \<open>TypeError\<close>
  where the source throws, with \<open>OutsideModel\<close> where the source goes on in a way these
  definitions do not follow (a sum that reaches \<^verbatim>\<open>Infinity\<close>, the text of a number above
  \<open>2^53\<close>, a write that changes \<^verbatim>\<open>Object.prototype\<close>, the conversion methods of a
  built-in function or a function of \<^verbatim>\<open>Object\<close> that the script calls). Every function
  is modelled in the environment the page starts with.
\<close>

datatype halt = TypeError | OutsideModel

fun to_pieces :: "jsval \<Rightarrow> piece list option" where
  "to_pieces (Num n) = (if n \<le> 2 ^ 53 then Some (map Ch (digits_of n)) else None)"
| "to_pieces (Str pre k rest) = Some (map Ch pre @ Native k # rest)"
| "to_pieces (Builtin k) = Some [Native k]"

text \<open>
  \<^verbatim>\<open>a + b\<close>: the rounded sum of two numbers (\<^verbatim>\<open>Infinity\<close> from \<open>2^1024 - 2^970\<close> on); with
  an operand that is not a number, the concatenation of the two texts.
\<close>

fun js_add :: "jsval \<Rightarrow> jsval \<Rightarrow> halt + jsval" where
  "js_add (Num x) (Num y) =
     (if 2 ^ 1024 - 2 ^ 970 \<le> x + y then Inl OutsideModel
      else Inr (Num (round_double (x + y))))"
| "js_add (Num x) (Str pre k rest) =
     (if x \<le> 2 ^ 53 then Inr (Str (digits_of x @ pre) k rest) else Inl OutsideModel)"
| "js_add (Num x) (Builtin k) =
     (if x \<le> 2 ^ 53 then Inr (Str (digits_of x) k []) else Inl OutsideModel)"
| "js_add (Str pre k rest) b =
     (case to_pieces b of None \<Rightarrow> Inl OutsideModel | Some ps \<Rightarrow> Inr (Str pre k (rest @ ps)))"
| "js_add (Builtin k) b =
     (case to_pieces b of None \<Rightarrow> Inl OutsideModel | Some ps \<Rightarrow> Inr (Str [] k ps))"

text \<open>
  \<^verbatim>\<open>ToNumber\<close>, for the comparisons \<^verbatim>\<open>u > 0\<close>, \<^verbatim>\<open>usage > 1\<close>, \<^verbatim>\<open>value >= c\<close> and
  \<^verbatim>\<open>value === 0\<close>: a string with the text of a built-in, and a built-in, give \<^verbatim>\<open>NaN\<close>
  (\<open>None\<close>), with which every comparison is false.
\<close>

fun to_number :: "jsval \<Rightarrow> nat option" where
  "to_number (Num n) = Some n"
| "to_number (Str pre k rest) = None"
| "to_number (Builtin k) = None"

text \<open>
  An object is the list of its own properties, key and value, in the order in which
  \<^verbatim>\<open>Object.keys\<close>, \<^verbatim>\<open>Object.values\<close>, \<^verbatim>\<open>Object.entries\<close> and \<^verbatim>\<open>for ... in\<close> enumerate
  them; its keys are distinct (\<open>wf_obj\<close>). (The language enumerates keys that are array
  indices first, in ascending order; no property below depends on the order in which an
  object built by the program is enumerated.) All objects here are plain: read from JSON
  or made by \<^verbatim>\<open>{}\<close>. Reading \<^verbatim>\<open>ob[k]\<close> finds the own property, else what
  \<^verbatim>\<open>Object.prototype\<close> has under \<open>k\<close>, else \<^verbatim>\<open>undefined\<close>.
\<close>

type_synonym 'v obj = "(string \<times> 'v) list"

definition wf_obj :: "'v obj \<Rightarrow> bool" where
  "wf_obj ob = distinct (map fst ob)"

definition inherited_names :: "string list" where
  "inherited_names =
     [''constructor'', ''__defineGetter__'', ''__defineSetter__'', ''hasOwnProperty'',
      ''__lookupGetter__'', ''__lookupSetter__'', ''isPrototypeOf'', ''propertyIsEnumerable'',
      ''toString'', ''valueOf'', ''__proto__'', ''toLocaleString'']"

datatype 'v lookup = Own 'v | Inherited | Missing

definition get_prop :: "'v obj \<Rightarrow> string \<Rightarrow> 'v lookup" where
  "get_prop ob k =
     (case map_of ob k of
        Some v \<Rightarrow> Own v
      | None \<Rightarrow> if k \<in> set inherited_names then Inherited else Missing)"

text \<open>
  \<^verbatim>\<open>ob[k] = v\<close> for a number or a string \<open>v\<close>: the own property is replaced where it
  stands, or added at the end. Under \<^verbatim>\<open>__proto__\<close>, when the object has no own property
  of that name, the inherited setter runs and ignores a value that is not an object.
\<close>

definition set_prop :: "'v obj \<Rightarrow> string \<Rightarrow> 'v \<Rightarrow> 'v obj" where
  "set_prop ob k v =
     (if k = ''__proto__'' \<and> map_of ob k = None then ob else AList.update k v ob)"

definition object_keys :: "'v obj \<Rightarrow> string list" where
  "object_keys ob = map fst ob"

definition object_values :: "'v obj \<Rightarrow> 'v list" where
  "object_values ob = map snd ob"

text \<open>
  \<^verbatim>\<open>ob[k] || 0\<close> on an object of counts. An own count is a number (and \<^verbatim>\<open>0 || 0\<close> is 0)
  or a string, which is not empty.
\<close>

definition count_or_zero :: "jsval obj \<Rightarrow> string \<Rightarrow> jsval" where
  "count_or_zero ob k =
     (case get_prop ob k of Own v \<Rightarrow> v | Inherited \<Rightarrow> Builtin k | Missing \<Rightarrow> Num 0)"

section \<open>The usage data and its aggregation\<close>

text \<open>
  The shape of \<^verbatim>\<open>angle-hold-boulder-grade-map.json\<close>: per angle, an optional
  \<^verbatim>\<open>holds\<close> object (hold identifier to grade counts) and an optional \<^verbatim>\<open>boulders\<close>
  object (boulder identifier to a record with a \<^verbatim>\<open>grade\<close>). The counts in the data are
  numbers; the totals that the program builds from them are values.
\<close>

record boulderInfo =
  grade :: string

type_synonym gradeCounts = "nat obj"
type_synonym gradeTotals = "jsval obj"
type_synonym holdMap = "gradeTotals obj"

record angleData =
  holds :: "gradeCounts obj option"
  boulders :: "boulderInfo obj option"

type_synonym gradeCountMap = "angleData obj"

text \<open>
  \<^verbatim>\<open>
  function mergeAllAngles(gradeCountMap) {
    const merged = {};
    for (const angleData of Object.values(gradeCountMap)) {
      if (!angleData.holds) continue;
      for (const [holdId, grades] of Object.entries(angleData.holds)) {
        if (!merged[holdId]) merged[holdId] = {};
        for (const [grade, count] of Object.entries(grades)) {
          merged[holdId][grade] = (merged[holdId][grade] || 0) + count;
        }
      }
    }
    return merged;
  }
  \<close>
  One function per loop, innermost first. \<open>merge_grades\<close> is the innermost loop on the
  object \<open>mh\<close> that \<^verbatim>\<open>merged[holdId]\<close> refers to, when that is an object of \<open>merged\<close>'s
  own.
\<close>

fun merge_grades :: "gradeTotals \<Rightarrow> (string \<times> nat) list \<Rightarrow> halt + gradeTotals" where
  "merge_grades mh [] = Inr mh"
| "merge_grades mh ((g, c) # rest) =
     (case js_add (count_or_zero mh g) (Num c) of
        Inl e \<Rightarrow> Inl e
      | Inr v \<Rightarrow> merge_grades (set_prop mh g v) rest)"

text \<open>
  When \<open>holdId\<close> is a name that \<open>merged\<close> inherits, \<^verbatim>\<open>merged[holdId]\<close> is a built-in
  and true, so no own property is made, and the innermost loop reads and writes the
  properties of that built-in, one grade after the other. \<open>merged\<close> stays as it is.
  On a built-in function the read of \<^verbatim>\<open>caller\<close> or \<^verbatim>\<open>arguments\<close> throws; a write under
  \<^verbatim>\<open>toString\<close> or \<^verbatim>\<open>valueOf\<close> changes how the function converts to a string; a write
  to \<^verbatim>\<open>Object\<close> (under \<^verbatim>\<open>constructor\<close>) can replace \<^verbatim>\<open>Object.entries\<close>,
  \<^verbatim>\<open>Object.values\<close> or \<^verbatim>\<open>Object.keys\<close>, which the script calls; a write to
  \<^verbatim>\<open>Object.prototype\<close> (under \<^verbatim>\<open>__proto__\<close>) shows in every object. A write that
  the built-in refuses is skipped, the script not being in strict mode.
\<close>

fun builtin_writes :: "string \<Rightarrow> string list \<Rightarrow> halt option" where
  "builtin_writes holdId [] = None"
| "builtin_writes holdId (g # rest) =
     (if holdId = ''__proto__'' then Some OutsideModel
      else if g = ''caller'' \<or> g = ''arguments'' then Some TypeError
      else if g = ''toString'' \<or> g = ''valueOf'' then Some OutsideModel
      else if holdId = ''constructor'' \<and> (g = ''entries'' \<or> g = ''values'' \<or> g = ''keys'')
        then Some OutsideModel
      else builtin_writes holdId rest)"

fun merge_holds :: "holdMap \<Rightarrow> (string \<times> gradeCounts) list \<Rightarrow> halt + holdMap" where
  "merge_holds merged [] = Inr merged"
| "merge_holds merged ((holdId, grades) # rest) =
     (case get_prop merged holdId of
        Inherited \<Rightarrow>
          (case builtin_writes holdId (object_keys grades) of
             Some e \<Rightarrow> Inl e
           | None \<Rightarrow> merge_holds merged rest)
      | Own mh \<Rightarrow>
          (case merge_grades mh grades of
             Inl e \<Rightarrow> Inl e
           | Inr mh' \<Rightarrow> merge_holds (AList.update holdId mh' merged) rest)
      | Missing \<Rightarrow>
          (case merge_grades [] grades of
             Inl e \<Rightarrow> Inl e
           | Inr mh' \<Rightarrow> merge_holds (AList.update holdId mh' merged) rest))"

fun merge_angles :: "holdMap \<Rightarrow> angleData list \<Rightarrow> halt + holdMap" where
  "merge_angles merged [] = Inr merged"
| "merge_angles merged (a # rest) =
     (case holds a of
        None \<Rightarrow> merge_angles merged rest
      | Some hs \<Rightarrow>
          (case merge_holds merged hs of
             Inl e \<Rightarrow> Inl e
           | Inr merged' \<Rightarrow> merge_angles merged' rest))"

definition mergeAllAngles :: "gradeCountMap \<Rightarrow> halt + holdMap" where
  "mergeAllAngles m = merge_angles [] (object_values m)"

text \<open>
  \<^verbatim>\<open>
  function countBouldersWithGrade(gradeCountMap, selectedGrade, selectedAngle) {
    let total = 0;
    const angles = selectedAngle === "all" ? Object.keys(gradeCountMap) : [selectedAngle];
    for (const angle of angles) {
      const data = gradeCountMap[angle];
      if (!data || !data.boulders) continue;
      for (const boulderId in data.boulders) {
        const boulder = data.boulders[boulderId];
        if (selectedGrade === "all" || boulder.grade === selectedGrade) { total++; }
      }
    }
    return total;
  }
  \<close>
  \<open>boulderId\<close> is a key of \<^verbatim>\<open>data.boulders\<close>, so the read of \<^verbatim>\<open>data.boulders[boulderId]\<close>
  finds an own property; the other branches are there for totality only. An angle that
  the map only inherits is a built-in without \<^verbatim>\<open>boulders\<close>, and is passed over like an
  absent one. The counter \<^verbatim>\<open>total\<close> is \<open>tot\<close>.
\<close>

fun count_in_boulders :: "boulderInfo obj \<Rightarrow> string \<Rightarrow> string list \<Rightarrow> nat \<Rightarrow> nat" where
  "count_in_boulders bs selectedGrade [] tot = tot"
| "count_in_boulders bs selectedGrade (boulderId # rest) tot =
     count_in_boulders bs selectedGrade rest
       (if selectedGrade = ''all'' \<or>
           (case get_prop bs boulderId of
              Own boulder \<Rightarrow> grade boulder = selectedGrade
            | Inherited \<Rightarrow> False
            | Missing \<Rightarrow> False)
        then tot + 1 else tot)"

fun count_in_angles :: "gradeCountMap \<Rightarrow> string \<Rightarrow> string list \<Rightarrow> nat \<Rightarrow> nat" where
  "count_in_angles m selectedGrade [] tot = tot"
| "count_in_angles m selectedGrade (angle # rest) tot =
     (case get_prop m angle of
        Own data \<Rightarrow>
          (case boulders data of
             None \<Rightarrow> count_in_angles m selectedGrade rest tot
           | Some bs \<Rightarrow>
               count_in_angles m selectedGrade rest
                 (count_in_boulders bs selectedGrade (object_keys bs) tot))
      | Inherited \<Rightarrow> count_in_angles m selectedGrade rest tot
      | Missing \<Rightarrow> count_in_angles m selectedGrade rest tot)"

definition countBouldersWithGrade :: "gradeCountMap \<Rightarrow> string \<Rightarrow> string \<Rightarrow> nat" where
  "countBouldersWithGrade m selectedGrade selectedAngle =
     (let angles = (if selectedAngle = ''all'' then object_keys m else [selectedAngle])
      in count_in_angles m selectedGrade angles 0)"

section \<open>The filter pipeline of \<^verbatim>\<open>drawBoardWithNormalizedHeatmap\<close>\<close>

text \<open>
  \<^verbatim>\<open>
  const activeMap =
    selectedAngle === "all"
      ? mergeAllAngles(gradeCountMap)
      : gradeCountMap[selectedAngle]?.holds || {};
  \<close>
  The \<^verbatim>\<open>holds\<close> of an angle come from the data, with numbers for counts. A built-in
  that the map inherits under \<open>selectedAngle\<close> has no \<^verbatim>\<open>holds\<close>.
\<close>

definition counts_as_values :: "gradeCounts obj \<Rightarrow> holdMap" where
  "counts_as_values hs = map (\<lambda>(h, gc). (h, map (\<lambda>(g, c). (g, Num c)) gc)) hs"

definition activeMap :: "gradeCountMap \<Rightarrow> string \<Rightarrow> halt + holdMap" where
  "activeMap m selectedAngle =
     (if selectedAngle = ''all'' then mergeAllAngles m
      else (case get_prop m selectedAngle of
              Own a \<Rightarrow> (case holds a of None \<Rightarrow> Inr [] | Some hs \<Rightarrow> Inr (counts_as_values hs))
            | Inherited \<Rightarrow> Inr []
            | Missing \<Rightarrow> Inr []))"

text \<open>
  \<^verbatim>\<open>
  const usagePerHold = {};
  for (const [holdId, gradeCounts] of Object.entries(activeMap)) {
    const filteredGrades =
      selectedGrade === "all" ? Object.values(gradeCounts) : [gradeCounts[selectedGrade] || 0];
    usagePerHold[holdId] = filteredGrades.reduce((a, b) => a + b, 0);
  }
  \<close>
\<close>

definition filteredGrades :: "gradeTotals \<Rightarrow> string \<Rightarrow> jsval list" where
  "filteredGrades gc selectedGrade =
     (if selectedGrade = ''all'' then object_values gc
      else [count_or_zero gc selectedGrade])"

fun reduce_add :: "jsval \<Rightarrow> jsval list \<Rightarrow> halt + jsval" where
  "reduce_add a [] = Inr a"
| "reduce_add a (b # rest) =
     (case js_add a b of Inl e \<Rightarrow> Inl e | Inr s \<Rightarrow> reduce_add s rest)"

definition hold_usage :: "gradeTotals \<Rightarrow> string \<Rightarrow> halt + jsval" where
  "hold_usage gc selectedGrade = reduce_add (Num 0) (filteredGrades gc selectedGrade)"

fun usage_loop :: "jsval obj \<Rightarrow> (string \<times> gradeTotals) list \<Rightarrow> string \<Rightarrow> halt + jsval obj" where
  "usage_loop acc [] selectedGrade = Inr acc"
| "usage_loop acc ((holdId, gc) # rest) selectedGrade =
     (case hold_usage gc selectedGrade of
        Inl e \<Rightarrow> Inl e
      | Inr u \<Rightarrow> usage_loop (set_prop acc holdId u) rest selectedGrade)"

definition usagePerHold :: "holdMap \<Rightarrow> string \<Rightarrow> halt + jsval obj" where
  "usagePerHold am selectedGrade = usage_loop [] am selectedGrade"

text \<open>
  \<^verbatim>\<open>
  const usageVals = Object.values(usagePerHold).filter((u) => u > 0).sort((a, b) => a - b);
  const quantiles = computeQuantiles(usageVals);
  \<close>
  Only numbers pass the filter.
\<close>

definition positive_numbers :: "jsval list \<Rightarrow> nat list" where
  "positive_numbers vs =
     concat (map (\<lambda>v. case to_number v of None \<Rightarrow> [] | Some n \<Rightarrow> if n > 0 then [n] else []) vs)"

definition usageVals :: "jsval obj \<Rightarrow> nat list" where
  "usageVals uph = array_sort compareNumbers (positive_numbers (object_values uph))"

text \<open>
  The attributes of a hold's circle that depend on its usage:
  \<^verbatim>\<open>
  const usage = usagePerHold[holdId] || 0;
  const fillColor = getPercentileColor(usage, quantiles);
  circle.setAttribute("fill", fillColor);
  circle.setAttribute("fill-opacity", usage > 1 ? 0.7 : 0);
  circle.setAttribute("stroke", usage > 1 ? "black" : "transparent");
  circle.setAttribute("stroke-opacity", usage > 1 ? 0.5 : 0);
  circle.setAttribute("stroke-width", 2);
  \<close>
  The position and radius of the circle, computed from the layout, are left out. For a
  usage that is not a number, every test of \<^verbatim>\<open>getPercentileColor\<close> is false and its last
  \<^verbatim>\<open>return\<close> gives the colour.
\<close>

record circleAttrs =
  fill :: string
  fill_opacity :: rat
  stroke :: string
  stroke_opacity :: rat
  stroke_width :: nat

definition usage_color :: "jsval \<Rightarrow> nat option list \<Rightarrow> string" where
  "usage_color usage quantiles =
     (case to_number usage of
        Some n \<Rightarrow> getPercentileColor n quantiles
      | None \<Rightarrow> ''#d4f7b2'')"

definition usage_above_one :: "jsval \<Rightarrow> bool" where
  "usage_above_one usage = (case to_number usage of Some n \<Rightarrow> n > 1 | None \<Rightarrow> False)"

definition circle_for :: "jsval obj \<Rightarrow> nat option list \<Rightarrow> string \<Rightarrow> circleAttrs" where
  "circle_for uph quantiles holdId =
     (let usage = count_or_zero uph holdId;
          fillColor = usage_color usage quantiles
      in \<lparr> fill = fillColor,
           fill_opacity = (if usage_above_one usage then 7 / 10 else 0),
           stroke = (if usage_above_one usage then ''black'' else ''transparent''),
           stroke_opacity = (if usage_above_one usage then 5 / 10 else 0),
           stroke_width = 2 \<rparr>)"

text \<open>
  The steps in a row, from the data and the two filters: the usage object, the cutoffs, the
  usage of one hold and its circle.
\<close>

definition heatmap_usagePerHold :: "gradeCountMap \<Rightarrow> string \<Rightarrow> string \<Rightarrow> halt + jsval obj" where
  "heatmap_usagePerHold m selectedAngle selectedGrade =
     (case activeMap m selectedAngle of
        Inl e \<Rightarrow> Inl e
      | Inr am \<Rightarrow> usagePerHold am selectedGrade)"

definition heatmap_quantiles :: "gradeCountMap \<Rightarrow> string \<Rightarrow> string \<Rightarrow> halt + nat option list" where
  "heatmap_quantiles m selectedAngle selectedGrade =
     (case heatmap_usagePerHold m selectedAngle selectedGrade of
        Inl e \<Rightarrow> Inl e
      | Inr uph \<Rightarrow> Inr (computeQuantiles (usageVals uph)))"

definition heatmap_usage :: "gradeCountMap \<Rightarrow> string \<Rightarrow> string \<Rightarrow> string \<Rightarrow> halt + jsval" where
  "heatmap_usage m selectedAngle selectedGrade holdId =
     (case heatmap_usagePerHold m selectedAngle selectedGrade of
        Inl e \<Rightarrow> Inl e
      | Inr uph \<Rightarrow> Inr (count_or_zero uph holdId))"

definition heatmap_circle :: "gradeCountMap \<Rightarrow> string \<Rightarrow> string \<Rightarrow> string \<Rightarrow> halt + circleAttrs" where
  "heatmap_circle m selectedAngle selectedGrade holdId =
     (case heatmap_usagePerHold m selectedAngle selectedGrade of
        Inl e \<Rightarrow> Inl e
      | Inr uph \<Rightarrow> Inr (circle_for uph (computeQuantiles (usageVals uph)) holdId))"

section \<open>Notions used to state the properties\<close>



text \<open>
  A yardstick for \<^verbatim>\<open>mergeAllAngles\<close>, not a model of it: the accumulation of the counts
  with exact addition, over own properties only. \<open>nums\<close> and \<open>counts_as_values\<close> turn its
  objects of integers into objects of values.
\<close>

definition nums :: "nat obj \<Rightarrow> jsval obj" where
  "nums gcn = map (\<lambda>(g, c). (g, Num c)) gcn"

definition or0 :: "nat option \<Rightarrow> nat" where
  "or0 v = (case v of None \<Rightarrow> 0 | Some c \<Rightarrow> c)"

fun exact_grades :: "nat obj \<Rightarrow> (string \<times> nat) list \<Rightarrow> nat obj" where
  "exact_grades mh [] = mh"
| "exact_grades mh ((g, c) # rest) =
     exact_grades (AList.update g (or0 (map_of mh g) + c) mh) rest"

fun exact_holds :: "nat obj obj \<Rightarrow> (string \<times> nat obj) list \<Rightarrow> nat obj obj" where
  "exact_holds merged [] = merged"
| "exact_holds merged ((holdId, grades) # rest) =
     (let mh = (case map_of merged holdId of None \<Rightarrow> [] | Some ob \<Rightarrow> ob)
      in exact_holds (AList.update holdId (exact_grades mh grades) merged) rest)"

fun exact_angles :: "nat obj obj \<Rightarrow> angleData list \<Rightarrow> nat obj obj" where
  "exact_angles merged [] = merged"
| "exact_angles merged (a # rest) =
     (case holds a of
        None \<Rightarrow> exact_angles merged rest
      | Some hs \<Rightarrow> exact_angles (exact_holds merged hs) rest)"

definition exact_merge :: "gradeCountMap \<Rightarrow> nat obj obj" where
  "exact_merge m = exact_angles [] (object_values m)"

text \<open>
  All the grade entries recorded for a hold, across the \<^verbatim>\<open>holds\<close> objects of a list of
  angles in the order of enumeration; the holds that occur in them; the sum of the counts
  entered for one grade; the content of a merged map as a mapping from hold to grade to
  total, without the order of enumeration; and the data whose hold identifiers and grade
  labels are all plain, none of them a name that objects inherit.
\<close>

definition grade_sum :: "(string \<times> nat) list \<Rightarrow> string \<Rightarrow> nat" where
  "grade_sum es g = sum_list (map snd (filter (\<lambda>p. fst p = g) es))"

definition hold_entries :: "(string \<times> gradeCounts) list \<Rightarrow> string \<Rightarrow> (string \<times> nat) list" where
  "hold_entries hs h = concat (map snd (filter (\<lambda>p. fst p = h) hs))"

definition angle_entries :: "angleData list \<Rightarrow> string \<Rightarrow> (string \<times> nat) list" where
  "angle_entries angles h =
     concat (map (\<lambda>a. case holds a of None \<Rightarrow> [] | Some hs \<Rightarrow> hold_entries hs h) angles)"

definition angle_holds :: "angleData list \<Rightarrow> string set" where
  "angle_holds angles =
     (\<Union>a \<in> set angles. case holds a of None \<Rightarrow> {} | Some hs \<Rightarrow> set (object_keys hs))"

definition hold_totals :: "'v obj obj \<Rightarrow> string \<Rightarrow> (string \<Rightarrow> 'v option) option" where
  "hold_totals merged h = map_option map_of (map_of merged h)"

definition plain_holds :: "gradeCounts obj \<Rightarrow> bool" where
  "plain_holds hs =
     list_all (\<lambda>(h, gc). h \<notin> set inherited_names
                 \<and> list_all (\<lambda>(g, c). g \<notin> set inherited_names) gc) hs"

definition plain_keys :: "gradeCountMap \<Rightarrow> bool" where
  "plain_keys m =
     list_all (\<lambda>a. case holds a of None \<Rightarrow> True | Some hs \<Rightarrow> plain_holds hs) (object_values m)"

text \<open>The total that the yardstick holds for a grade of a hold, 0 when it has none.\<close>

definition total_at :: "nat obj obj \<Rightarrow> string \<Rightarrow> string \<Rightarrow> nat" where
  "total_at merged h g = or0 (case map_of merged h of None \<Rightarrow> None | Some ob \<Rightarrow> map_of ob g)"

section \<open>Properties of the classifier\<close>

lemma insert_sorted_compareNumbers: "insert_sorted compareNumbers x ys = insort x ys"
  by (induction ys) (simp_all add: compareNumbers_def)

lemma array_sort_compareNumbers: "array_sort compareNumbers xs = sort xs"
  by (induction xs) (simp_all add: insert_sorted_compareNumbers)

lemma floor_frac_nat:
  fixes a b n :: nat
  shows "nat \<lfloor>(of_nat a / of_nat b :: rat) * of_nat n\<rfloor> = a * n div b"
proof -
  have "(of_nat a / of_nat b :: rat) * of_nat n = of_int (int (a * n)) / of_int (int b)"
    by simp
  then have "\<lfloor>(of_nat a / of_nat b :: rat) * of_nat n\<rfloor> = int (a * n) div int b"
    by (simp only: floor_divide_of_int_eq)
  then show ?thesis
    by (simp add: nat_div_distrib nat_mult_distrib)
qed

lemma idx_div:
  "idx s (3 / 10) = 3 * length s div 10"
  "idx s (5 / 10) = length s div 2"
  "idx s (85 / 100) = 17 * length s div 20"
  "idx s (95 / 100) = 19 * length s div 20"
  using floor_frac_nat[of 3 10 "length s"] floor_frac_nat[of 1 2 "length s"]
    floor_frac_nat[of 17 20 "length s"] floor_frac_nat[of 19 20 "length s"]
  by (simp_all add: idx_def)

lemma idx_bounds:
  fixes n :: nat
  assumes "0 < n"
  shows "3 * n div 10 < n" "n div 2 < n" "17 * n div 20 < n" "19 * n div 20 < n"
  using assms by (simp_all add: div_less_iff_less_mult)

lemma idx_order:
  fixes n :: nat
  shows "3 * n div 10 \<le> n div 2" "n div 2 \<le> 17 * n div 20" "17 * n div 20 \<le> 19 * n div 20"
proof -
  have "3 * n div 10 \<le> 5 * n div 10" by (rule div_le_mono) simp
  also have "5 * n div 10 = n div 2" by simp
  finally show "3 * n div 10 \<le> n div 2" .
  have "n div 2 = 10 * n div 20" by simp
  also have "\<dots> \<le> 17 * n div 20" by (rule div_le_mono) simp
  finally show "n div 2 \<le> 17 * n div 20" .
  show "17 * n div 20 \<le> 19 * n div 20" by (rule div_le_mono) simp
qed

lemma computeQuantiles_sort:
  assumes "vals \<noteq> []"
  shows "computeQuantiles vals =
    [Some (sort vals ! 0),
     Some (sort vals ! (3 * length vals div 10)),
     Some (sort vals ! (length vals div 2)),
     Some (sort vals ! (17 * length vals div 20)),
     Some (sort vals ! (19 * length vals div 20))]"
proof -
  have n: "0 < length vals" using assms by simp
  have "computeQuantiles vals =
     [at_index (sort vals) 0, at_index (sort vals) (idx (sort vals) (3 / 10)),
      at_index (sort vals) (idx (sort vals) (5 / 10)),
      at_index (sort vals) (idx (sort vals) (85 / 100)),
      at_index (sort vals) (idx (sort vals) (95 / 100))]"
    using n unfolding computeQuantiles_def Let_def array_sort_compareNumbers by simp
  then show ?thesis
    unfolding idx_div using n idx_bounds[OF n] by (simp add: at_index_def)
qed

lemma sort_nth_0_Min:
  assumes "vals \<noteq> []"
  shows "sort vals ! 0 = Min (set (vals :: nat list))"
proof -
  have n: "0 < length (sort vals)" using assms by simp
  have "Min (set (sort vals)) = sort vals ! 0"
  proof (rule Min_eqI)
    show "finite (set (sort vals))" by simp
    show "sort vals ! 0 \<in> set (sort vals)" using n by (rule nth_mem)
    fix y assume "y \<in> set (sort vals)"
    then obtain i where "i < length (sort vals)" "sort vals ! i = y"
      unfolding in_set_conv_nth by blast
    then show "sort vals ! 0 \<le> y"
      using sorted_nth_mono[of "sort vals" 0 i] by simp
  qed
  then show ?thesis by simp
qed

lemma computeQuantiles_example:
  "computeQuantiles [7, 2, 9, 2] = [Some 2, Some 2, Some 7, Some 9, Some 9]"
  unfolding computeQuantiles_def Let_def idx_div
  by (simp add: at_index_def compareNumbers_def)

lemma computeQuantiles_heap_example:
  "computeQuantiles_heap [[4, 1], [3, 2, 1]] 1 =
       Some ([Some 1, Some 1, Some 2, Some 3, Some 3], [[4, 1], [3, 2, 1], [1, 2, 3]])"
  unfolding computeQuantiles_heap_def spread_copy_def alloc_def sort_in_place_def idx_div
  by (simp add: deref_def at_index_def compareNumbers_def)

text \<open>
  C1. \<^verbatim>\<open>getPercentileColor\<close> (the spec's \<open>colorFor\<close>) returns \<^verbatim>\<open>"transparent"\<close> for the
  value 0 whatever the cutoffs are; for any other value it compares with the cutoffs from
  the top, the bound included: at least \<open>cutoffs[4]\<close> gives the top colour, else at least
  \<open>cutoffs[3]\<close> the second, else at least \<open>cutoffs[2]\<close> the third, else at least
  \<open>cutoffs[1]\<close> the fourth, and anything else the bottom colour. With the cutoffs
  \<open>(0, 2, 5, 10, 20)\<close>, 25 and 20 get the top colour, 19 the second and 1 the bottom one.
\<close>

theorem getPercentileColor_buckets:
  "getPercentileColor 0 quantiles = ''transparent''
   \<and> getPercentileColor v [Some c0, Some c1, Some c2, Some c3, Some c4] =
       (if v = 0 then ''transparent''
        else if c4 \<le> v then ''#bd0026''
        else if c3 \<le> v then ''#fd8d3c''
        else if c2 \<le> v then ''#fecc5c''
        else if c1 \<le> v then ''#ffffb2''
        else ''#d4f7b2'')
   \<and> getPercentileColor 25 [Some 0, Some 2, Some 5, Some 10, Some 20] = ''#bd0026''
   \<and> getPercentileColor 20 [Some 0, Some 2, Some 5, Some 10, Some 20] = ''#bd0026''
   \<and> getPercentileColor 19 [Some 0, Some 2, Some 5, Some 10, Some 20] = ''#fd8d3c''
   \<and> getPercentileColor 1 [Some 0, Some 2, Some 5, Some 10, Some 20] = ''#d4f7b2''"
  by (simp add: getPercentileColor_def quantile_at_def at_index_def)

text \<open>
  C2. For a non-empty sequence of \<open>n\<close> counts, \<^verbatim>\<open>computeQuantiles\<close> returns the elements
  of the ascending sort \<open>s\<close> of the sequence (the sorted list with the same elements, each as
  often) at the positions \<open>\<lfloor>q * n\<rfloor>\<close> for \<open>q\<close> = 0, 0.3, 0.5, 0.85, 0.95. Position 0 holds
  the minimum, and every position is below \<open>n\<close>, so no element is \<^verbatim>\<open>undefined\<close>.
\<close>

theorem computeQuantiles_positions:
  fixes vals s :: "nat list"
  assumes "vals \<noteq> []" and "sorted s" and "mset s = mset vals"
  shows "computeQuantiles vals =
           [Some (s ! 0),
            Some (s ! nat \<lfloor>(3 / 10 :: rat) * of_nat (length vals)\<rfloor>),
            Some (s ! nat \<lfloor>(5 / 10 :: rat) * of_nat (length vals)\<rfloor>),
            Some (s ! nat \<lfloor>(85 / 100 :: rat) * of_nat (length vals)\<rfloor>),
            Some (s ! nat \<lfloor>(95 / 100 :: rat) * of_nat (length vals)\<rfloor>)]
         \<and> s ! 0 = Min (set vals)
         \<and> nat \<lfloor>(3 / 10 :: rat) * of_nat (length vals)\<rfloor> < length vals
         \<and> nat \<lfloor>(5 / 10 :: rat) * of_nat (length vals)\<rfloor> < length vals
         \<and> nat \<lfloor>(85 / 100 :: rat) * of_nat (length vals)\<rfloor> < length vals
         \<and> nat \<lfloor>(95 / 100 :: rat) * of_nat (length vals)\<rfloor> < length vals"
proof -
  have s: "sort vals = s" by (rule properties_for_sort[OF assms(3) assms(2)])
  have n: "0 < length vals" using assms(1) by simp
  have i: "nat \<lfloor>(3 / 10 :: rat) * of_nat (length vals)\<rfloor> = 3 * length vals div 10"
    "nat \<lfloor>(5 / 10 :: rat) * of_nat (length vals)\<rfloor> = length vals div 2"
    "nat \<lfloor>(85 / 100 :: rat) * of_nat (length vals)\<rfloor> = 17 * length vals div 20"
    "nat \<lfloor>(95 / 100 :: rat) * of_nat (length vals)\<rfloor> = 19 * length vals div 20"
    using idx_div[of vals] by (simp_all only: idx_def)
  have q: "computeQuantiles vals =
    [Some (s ! 0), Some (s ! (3 * length vals div 10)), Some (s ! (length vals div 2)),
     Some (s ! (17 * length vals div 20)), Some (s ! (19 * length vals div 20))]"
    using computeQuantiles_sort[OF assms(1)] by (simp only: s)
  have m: "s ! 0 = Min (set vals)" using sort_nth_0_Min[OF assms(1)] by (simp only: s)
  show ?thesis by (simp only: i q m idx_bounds[OF n] simp_thms)
qed

theorem computeQuantiles_positions_witness:
  "[5, 1, 3] \<noteq> ([] :: nat list) \<and> sorted [1, 3, 5 :: nat] \<and> mset [1, 3, 5 :: nat] = mset [5, 1, 3]
   \<and> computeQuantiles [5, 1, 3] = [Some 1, Some 1, Some 3, Some 5, Some 5]"
proof -
  have h: "[5, 1, 3] \<noteq> ([] :: nat list)" "sorted [1, 3, 5 :: nat]"
    "mset [1, 3, 5 :: nat] = mset [5, 1, 3]"
    by simp_all
  have "computeQuantiles [5, 1, 3] = [Some 1, Some 1, Some 3, Some 5, Some 5]"
    using computeQuantiles_positions[OF h, unfolded idx_div[unfolded idx_def]]
    by simp
  with h show ?thesis by simp
qed

text \<open>
  C3. For a non-empty sequence of counts the five cutoffs are non-decreasing, and the first
  is the minimum of the sequence.
\<close>

theorem computeQuantiles_monotone:
  assumes "vals \<noteq> []"
  shows "\<exists>p0 p30 p50 p85 p95.
           computeQuantiles vals = [Some p0, Some p30, Some p50, Some p85, Some p95]
           \<and> p0 \<le> p30 \<and> p30 \<le> p50 \<and> p50 \<le> p85 \<and> p85 \<le> p95
           \<and> p0 = Min (set vals)"
proof -
  let ?s = "sort vals" and ?n = "length vals"
  have n: "0 < ?n" using assms by simp
  have mono: "\<And>i j. i \<le> j \<Longrightarrow> j < ?n \<Longrightarrow> ?s ! i \<le> ?s ! j"
    by (rule sorted_nth_mono) simp_all
  have "?s ! 0 \<le> ?s ! (3 * ?n div 10)" by (rule mono) (simp_all add: idx_bounds[OF n])
  moreover have "?s ! (3 * ?n div 10) \<le> ?s ! (?n div 2)"
    by (rule mono) (simp_all only: idx_bounds[OF n] idx_order)
  moreover have "?s ! (?n div 2) \<le> ?s ! (17 * ?n div 20)"
    by (rule mono) (simp_all only: idx_bounds[OF n] idx_order)
  moreover have "?s ! (17 * ?n div 20) \<le> ?s ! (19 * ?n div 20)"
    by (rule mono) (simp_all only: idx_bounds[OF n] idx_order)
  ultimately show ?thesis
    unfolding computeQuantiles_sort[OF assms] sort_nth_0_Min[OF assms, symmetric] by blast
qed

theorem computeQuantiles_monotone_witness:
  "[7, 2, 9, 2] \<noteq> ([] :: nat list) \<and>
   (\<exists>p0 p30 p50 p85 p95.
      computeQuantiles [7, 2, 9, 2] = [Some p0, Some p30, Some p50, Some p85, Some p95]
      \<and> p0 \<le> p30 \<and> p30 \<le> p50 \<and> p50 \<le> p85 \<and> p85 \<le> p95 \<and> p0 = Min (set [7, 2, 9, 2]))"
  using computeQuantiles_monotone[of "[7, 2, 9, 2]"] by simp

text \<open>
  C10. \<^verbatim>\<open>computeQuantiles\<close> leaves its argument as it was: called on a reference to an
  array with contents \<open>vs\<close>, it returns the cutoffs of \<open>vs\<close>, and afterwards the reference
  still holds \<open>vs\<close>, as does every other array that existed before the call. The sort
  runs on the copy made by the spread.
\<close>

theorem computeQuantiles_heap_frame:
  assumes "deref h vals = Some vs"
  shows "\<exists>h'. computeQuantiles_heap h vals = Some (computeQuantiles vs, h')
           \<and> deref h' vals = Some vs
           \<and> (\<forall>r. r < length h \<longrightarrow> deref h' r = deref h r)"
proof -
  have v: "vals < length h" "h ! vals = vs"
    using assms by (auto simp: deref_def at_index_def split: if_splits)
  show ?thesis
  proof (cases "length vs = 0")
    case True
    then show ?thesis using assms by (simp add: computeQuantiles_heap_def computeQuantiles_def)
  next
    case False
    then show ?thesis using assms v
      by (simp add: computeQuantiles_heap_def computeQuantiles_def spread_copy_def alloc_def
          sort_in_place_def deref_def at_index_def Let_def nth_append)
  qed
qed

theorem computeQuantiles_heap_frame_witness:
  "deref [[4, 1], [3, 2, 1]] 1 = Some [3, 2, 1]
   \<and> (\<exists>h'. computeQuantiles_heap [[4, 1], [3, 2, 1]] 1 = Some (computeQuantiles [3, 2, 1], h')
         \<and> deref h' 1 = Some [3, 2, 1]
         \<and> (\<forall>r. r < length [[4, 1], [3, 2, 1 :: nat]] \<longrightarrow> deref h' r = deref [[4, 1], [3, 2, 1]] r))"
proof -
  have h: "deref [[4, 1], [3, 2, 1]] 1 = Some [3, 2, 1]"
    by (simp add: deref_def at_index_def)
  from computeQuantiles_heap_frame[OF h] h show ?thesis by blast
qed

text \<open>
  C7. \<^verbatim>\<open>computeQuantiles\<close> of the empty sequence is the all-zero cutoff tuple.
\<close>

theorem computeQuantiles_empty:
  "computeQuantiles [] = [Some 0, Some 0, Some 0, Some 0, Some 0]"
  by (simp add: computeQuantiles_def)

section \<open>Properties of the aggregation\<close>

lemmas run_defs = mergeAllAngles_def object_values_def object_keys_def get_prop_def set_prop_def
  count_or_zero_def inherited_names_def round_double_def hold_usage_def filteredGrades_def
  usagePerHold_def activeMap_def counts_as_values_def bit_len.simps digits_of.simps
  heatmap_usagePerHold_def heatmap_usage_def

lemma get_prop_Own: "get_prop ob k = Own v \<longleftrightarrow> map_of ob k = Some v"
  by (simp add: get_prop_def split: option.splits)

lemma get_prop_entry: "distinct (map fst ob) \<Longrightarrow> (k, v) \<in> set ob \<Longrightarrow> get_prop ob k = Own v"
  by (simp add: get_prop_Own)



lemma below_infinity: "n \<le> 2 ^ 53 \<Longrightarrow> \<not> (2 ^ 1024 - 2 ^ 970 \<le> (n :: nat))"
proof -
  have "(2 :: nat) ^ 53 < 2 ^ 1024 - 2 ^ 970" by simp
  then show "n \<le> 2 ^ 53 \<Longrightarrow> \<not> (2 ^ 1024 - 2 ^ 970 \<le> n)" by linarith
qed

lemma js_add_exact: "x + y \<le> 2 ^ 53 \<Longrightarrow> js_add (Num x) (Num y) = Inr (Num (x + y))"
  using below_infinity[of "x + y"] by (simp add: round_double_def)




lemma count_in_boulders_all:
  "count_in_boulders bs ''all'' ks tot = tot + length ks"
  by (induction ks arbitrary: tot) simp_all

lemma count_in_angles_all:
  "count_in_angles m ''all'' ks tot =
     tot + sum_list (map (\<lambda>k. case get_prop m k of
                                 Own d \<Rightarrow> (case boulders d of None \<Rightarrow> 0 | Some bs \<Rightarrow> length bs)
                               | Inherited \<Rightarrow> 0 | Missing \<Rightarrow> 0) ks)"
  by (induction ks arbitrary: tot)
     (simp_all add: count_in_boulders_all object_keys_def split: option.splits lookup.splits)


text \<open>
  Runs on small data: the scenario of hold \<open>H1\<close> entered under the angles 20 and 40; a
  usage object; and hold identifiers that the merged object inherits.
\<close>

lemma end_to_end_example:
  "heatmap_usage
     [(''20'', \<lparr>holds = Some [(''H1'', [(''V3'', 2), (''V4'', 1)])], boulders = None\<rparr>),
      (''40'', \<lparr>holds = Some [(''H1'', [(''V3'', 5)])], boulders = None\<rparr>)] ''all'' ''all'' ''H1'' = Inr (Num 8)"
  "heatmap_usage
     [(''20'', \<lparr>holds = Some [(''H1'', [(''V3'', 2), (''V4'', 1)])], boulders = None\<rparr>),
      (''40'', \<lparr>holds = Some [(''H1'', [(''V3'', 5)])], boulders = None\<rparr>)] ''20'' ''V3'' ''H1'' = Inr (Num 2)"
  "heatmap_usage
     [(''20'', \<lparr>holds = Some [(''H1'', [(''V3'', 2), (''V4'', 1)])], boulders = None\<rparr>),
      (''40'', \<lparr>holds = Some [(''H1'', [(''V3'', 5)])], boulders = None\<rparr>)] ''all'' ''V5'' ''H1'' = Inr (Num 0)"
  by (simp_all add: run_defs)

lemma usagePerHold_example:
  "usagePerHold [(''H1'', [(''V3'', Num 2), (''V4'', Num 1)]), (''H2'', [(''V5'', Num 4)])] ''all''
     = Inr [(''H1'', Num 3), (''H2'', Num 4)]"
  "usagePerHold [(''H1'', [(''V3'', Num 2), (''V4'', Num 1)]), (''H2'', [(''V5'', Num 4)])] ''V3''
     = Inr [(''H1'', Num 2), (''H2'', Num 0)]"
  by (simp_all add: run_defs)

lemma heatmap_example:
  "heatmap_usagePerHold [(''40'', \<lparr>holds = Some [(''H1'', [(''V3'', 1)]), (''H2'', [(''V3'', 4)])], boulders = None\<rparr>)] ''40'' ''V3''
      = Inr [(''H1'', Num 1), (''H2'', Num 4)]"
  "computeQuantiles (usageVals [(''H1'', Num 1), (''H2'', Num 4)]) = [Some 1, Some 1, Some 4, Some 4, Some 4]"
  "circle_for [(''H1'', Num 1), (''H2'', Num 4)] [Some 1, Some 1, Some 4, Some 4, Some 4] ''H1''
     = \<lparr>fill = ''#ffffb2'', fill_opacity = 0, stroke = ''transparent'', stroke_opacity = 0, stroke_width = 2\<rparr>"
  "circle_for [(''H1'', Num 1), (''H2'', Num 4)] [Some 1, Some 1, Some 4, Some 4, Some 4] ''H2''
     = \<lparr>fill = ''#bd0026'', fill_opacity = 7 / 10, stroke = ''black'', stroke_opacity = 5 / 10, stroke_width = 2\<rparr>"
proof -
  show "heatmap_usagePerHold [(''40'', \<lparr>holds = Some [(''H1'', [(''V3'', 1)]), (''H2'', [(''V3'', 4)])], boulders = None\<rparr>)] ''40'' ''V3''
      = Inr [(''H1'', Num 1), (''H2'', Num 4)]"
    by (simp add: run_defs)
  show "computeQuantiles (usageVals [(''H1'', Num 1), (''H2'', Num 4)]) = [Some 1, Some 1, Some 4, Some 4, Some 4]"
    unfolding computeQuantiles_def Let_def idx_div
    by (simp add: usageVals_def positive_numbers_def object_values_def at_index_def compareNumbers_def)
  show "circle_for [(''H1'', Num 1), (''H2'', Num 4)] [Some 1, Some 1, Some 4, Some 4, Some 4] ''H1''
     = \<lparr>fill = ''#ffffb2'', fill_opacity = 0, stroke = ''transparent'', stroke_opacity = 0, stroke_width = 2\<rparr>"
    by (simp add: circle_for_def count_or_zero_def get_prop_def usage_color_def usage_above_one_def
        getPercentileColor_def quantile_at_def at_index_def)
  show "circle_for [(''H1'', Num 1), (''H2'', Num 4)] [Some 1, Some 1, Some 4, Some 4, Some 4] ''H2''
     = \<lparr>fill = ''#bd0026'', fill_opacity = 7 / 10, stroke = ''black'', stroke_opacity = 5 / 10, stroke_width = 2\<rparr>"
    by (simp add: circle_for_def count_or_zero_def get_prop_def usage_color_def usage_above_one_def
        getPercentileColor_def quantile_at_def at_index_def)
qed

lemma builtin_writes_example:
  "mergeAllAngles [(''20'', \<lparr>holds = Some [(''toString'', [(''caller'', 5)])], boulders = None\<rparr>)] = Inl TypeError"
  "mergeAllAngles [(''20'', \<lparr>holds = Some [(''__proto__'', [(''V3'', 5)])], boulders = None\<rparr>)] = Inl OutsideModel"
  "mergeAllAngles [(''20'', \<lparr>holds = Some [(''__proto__'', [])], boulders = None\<rparr>)] = Inr []"
  "mergeAllAngles [(''20'', \<lparr>holds = Some [(''constructor'', [(''V3'', 5)])], boulders = None\<rparr>)] = Inr []"
  "mergeAllAngles [(''20'', \<lparr>holds = Some [(''constructor'', [(''entries'', 5)])], boulders = None\<rparr>)]
     = Inl OutsideModel"
  by (simp_all add: run_defs)


text \<open>
  C9. With both filters at \<^verbatim>\<open>"all"\<close>, \<^verbatim>\<open>countBouldersWithGrade\<close> returns the sum over
  the angles of the number of entries of the angle's \<^verbatim>\<open>boulders\<close> object, an angle
  without one counting 0. Each angle is counted by its own entries: a boulder identifier
  entered under two angles counts twice.
\<close>

theorem countBouldersWithGrade_all_all:
  assumes "wf_obj m"
  shows "countBouldersWithGrade m ''all'' ''all'' =
           sum_list (map (\<lambda>(angle, d). case boulders d of None \<Rightarrow> 0 | Some bs \<Rightarrow> length bs) m)"
proof -
  let ?F = "\<lambda>k. case get_prop m k of
                    Own d \<Rightarrow> (case boulders d of None \<Rightarrow> 0 | Some bs \<Rightarrow> length bs)
                  | Inherited \<Rightarrow> 0 | Missing \<Rightarrow> 0"
  let ?G = "\<lambda>(angle, d). case boulders d of None \<Rightarrow> 0 | Some bs \<Rightarrow> length bs"
  have d: "distinct (map fst m)" using assms by (simp add: wf_obj_def)
  have eq: "map ?F (map fst m) = map ?G m"
    unfolding map_map by (rule map_cong[OF refl]) (auto simp: get_prop_entry[OF d])
  have "countBouldersWithGrade m ''all'' ''all'' = count_in_angles m ''all'' (map fst m) 0"
    by (simp add: countBouldersWithGrade_def object_keys_def)
  also have "\<dots> = sum_list (map ?F (map fst m))"
    by (simp only: count_in_angles_all add_0)
  also have "\<dots> = sum_list (map ?G m)"
    by (simp only: eq)
  finally show ?thesis .
qed

theorem countBouldersWithGrade_all_all_witness:
  "wf_obj [(''20'', \<lparr>holds = None, boulders = Some [(''b1'', \<lparr>grade = ''V3''\<rparr>), (''b2'', \<lparr>grade = ''V4''\<rparr>)]\<rparr>),
           (''40'', \<lparr>holds = None, boulders = Some [(''b1'', \<lparr>grade = ''V5''\<rparr>)]\<rparr>),
           (''60'', \<lparr>holds = Some [], boulders = None\<rparr>)]
   \<and> countBouldersWithGrade
         [(''20'', \<lparr>holds = None, boulders = Some [(''b1'', \<lparr>grade = ''V3''\<rparr>), (''b2'', \<lparr>grade = ''V4''\<rparr>)]\<rparr>),
          (''40'', \<lparr>holds = None, boulders = Some [(''b1'', \<lparr>grade = ''V5''\<rparr>)]\<rparr>),
          (''60'', \<lparr>holds = Some [], boulders = None\<rparr>)] ''all'' ''all'' = 3"
proof -
  have h: "wf_obj [(''20'', \<lparr>holds = None, boulders = Some [(''b1'', \<lparr>grade = ''V3''\<rparr>), (''b2'', \<lparr>grade = ''V4''\<rparr>)]\<rparr>),
           (''40'', \<lparr>holds = None, boulders = Some [(''b1'', \<lparr>grade = ''V5''\<rparr>)]\<rparr>),
           (''60'', \<lparr>holds = Some [], boulders = None\<rparr>)]"
    by (simp add: wf_obj_def)
  from countBouldersWithGrade_all_all[OF h] h show ?thesis by simp
qed

lemma getPercentileColor_one: "getPercentileColor (Suc 0) quantiles \<noteq> ''transparent''"
  by (simp add: getPercentileColor_def)

lemma circle_for_one:
  assumes "count_or_zero uph h = Num 1"
  shows "fill_opacity (circle_for uph q h) = 0" "stroke_opacity (circle_for uph q h) = 0"
    "stroke (circle_for uph q h) = ''transparent''"
    "fill (circle_for uph q h) = getPercentileColor 1 q"
    "fill (circle_for uph q h) \<noteq> ''transparent''"
  using assms
  by (simp_all add: circle_for_def Let_def usage_color_def usage_above_one_def getPercentileColor_one)

lemma circle_for_visible:
  "fill_opacity (circle_for uph q h) = 7 / 10 \<longleftrightarrow> (\<exists>n. count_or_zero uph h = Num n \<and> 1 < n)"
  "fill_opacity (circle_for uph q h) \<noteq> 0 \<longleftrightarrow> (\<exists>n. count_or_zero uph h = Num n \<and> 1 < n)"
  by (cases "count_or_zero uph h"; simp add: circle_for_def Let_def usage_above_one_def)+


text \<open>
  C8. A hold whose usage under the current filter is exactly 1 gets an invisible circle:
  fill opacity 0, stroke opacity 0 and stroke \<^verbatim>\<open>"transparent"\<close>, although its fill is
  the colour \<^verbatim>\<open>getPercentileColor\<close> gives for 1 with the cutoffs of the run, which is
  never \<^verbatim>\<open>"transparent"\<close>. The fill opacity is 0.7, and the circle visible, exactly for
  a usage that is a number greater than 1.
\<close>

theorem usage_one_marker_invisible:
  "(heatmap_usage m sa sg h = Inr (Num 1) \<longrightarrow>
      (\<exists>c q. heatmap_circle m sa sg h = Inr c \<and> heatmap_quantiles m sa sg = Inr q
         \<and> fill_opacity c = 0 \<and> stroke_opacity c = 0 \<and> stroke c = ''transparent''
         \<and> fill c = getPercentileColor 1 q \<and> fill c \<noteq> ''transparent''))
   \<and> getPercentileColor 1 quantiles \<noteq> ''transparent''
   \<and> (heatmap_circle m sa sg h = Inr c' \<longrightarrow>
        (fill_opacity c' = 7 / 10 \<longleftrightarrow> (\<exists>n. heatmap_usage m sa sg h = Inr (Num n) \<and> 1 < n))
        \<and> (fill_opacity c' \<noteq> 0 \<longleftrightarrow> (\<exists>n. heatmap_usage m sa sg h = Inr (Num n) \<and> 1 < n)))"
proof (cases "heatmap_usagePerHold m sa sg")
  case (Inl e)
  then show ?thesis
    by (simp add: heatmap_usage_def heatmap_circle_def getPercentileColor_one)
next
  case (Inr uph)
  have 1: "heatmap_usage m sa sg h = Inr (Num 1) \<longrightarrow>
      (\<exists>c q. heatmap_circle m sa sg h = Inr c \<and> heatmap_quantiles m sa sg = Inr q
         \<and> fill_opacity c = 0 \<and> stroke_opacity c = 0 \<and> stroke c = ''transparent''
         \<and> fill c = getPercentileColor 1 q \<and> fill c \<noteq> ''transparent'')"
    using circle_for_one[of uph h]
    by (simp add: heatmap_usage_def heatmap_circle_def heatmap_quantiles_def Inr)
  have 2: "heatmap_circle m sa sg h = Inr c' \<longrightarrow>
        (fill_opacity c' = 7 / 10 \<longleftrightarrow> (\<exists>n. heatmap_usage m sa sg h = Inr (Num n) \<and> 1 < n))
        \<and> (fill_opacity c' \<noteq> 0 \<longleftrightarrow> (\<exists>n. heatmap_usage m sa sg h = Inr (Num n) \<and> 1 < n))"
    using circle_for_visible[of uph "computeQuantiles (usageVals uph)" h]
    by (auto simp: heatmap_usage_def heatmap_circle_def Inr)
  from 1 2 show ?thesis by (simp add: getPercentileColor_one)
qed

theorem usage_one_marker_invisible_witness:
  "heatmap_usage [(''40'', \<lparr>holds = Some [(''H1'', [(''V3'', 1)]), (''H2'', [(''V3'', 4)])], boulders = None\<rparr>)]
       ''40'' ''V3'' ''H1'' = Inr (Num 1)
   \<and> (\<exists>c q. heatmap_circle [(''40'', \<lparr>holds = Some [(''H1'', [(''V3'', 1)]), (''H2'', [(''V3'', 4)])], boulders = None\<rparr>)]
               ''40'' ''V3'' ''H1'' = Inr c
         \<and> heatmap_quantiles [(''40'', \<lparr>holds = Some [(''H1'', [(''V3'', 1)]), (''H2'', [(''V3'', 4)])], boulders = None\<rparr>)]
               ''40'' ''V3'' = Inr q
         \<and> fill_opacity c = 0 \<and> stroke_opacity c = 0 \<and> stroke c = ''transparent''
         \<and> fill c = getPercentileColor 1 q \<and> fill c \<noteq> ''transparent'')"
proof -
  have h: "heatmap_usage [(''40'', \<lparr>holds = Some [(''H1'', [(''V3'', 1)]), (''H2'', [(''V3'', 4)])], boulders = None\<rparr>)]
       ''40'' ''V3'' ''H1'' = Inr (Num 1)"
    unfolding heatmap_usage_def heatmap_example(1) by (simp add: count_or_zero_def get_prop_def)
  from usage_one_marker_invisible[where
      m = "[(''40'', \<lparr>holds = Some [(''H1'', [(''V3'', 1)]), (''H2'', [(''V3'', 4)])], boulders = None\<rparr>)]"
      and sa = "''40''" and sg = "''V3''" and h = "''H1''"] h
  show ?thesis by blast
qed












lemma map_of_nums: "map_of (nums gcn) g = map_option Num (map_of gcn g)"
  by (induction gcn) (auto simp: nums_def)














lemma grade_sum_Cons:
  "grade_sum ((k, c) # es) g = (if k = g then c + grade_sum es g else grade_sum es g)"
  by (simp add: grade_sum_def)

lemma grade_sum_absent: "g \<notin> fst ` set es \<Longrightarrow> grade_sum es g = 0"
  by (induction es) (auto simp: grade_sum_def)

lemma grade_sum_append: "grade_sum (es @ fs) g = grade_sum es g + grade_sum fs g"
  by (simp add: grade_sum_def)

lemma grade_sum_mset:
  "mset es = mset fs \<Longrightarrow> grade_sum es g = grade_sum fs g"
proof -
  assume e: "mset es = mset fs"
  have "\<And>xs. grade_sum xs g = sum_mset (image_mset snd (filter_mset (\<lambda>p. fst p = g) (mset xs)))"
    unfolding grade_sum_def by (simp flip: sum_mset_sum_list mset_filter mset_map)
  then show ?thesis by (simp only: e)
qed

lemma get_exact_grades:
  "map_of (exact_grades mh es) g =
     (if g \<in> fst ` set es then Some (or0 (map_of mh g) + grade_sum es g)
      else map_of mh g)"
proof (induction es arbitrary: mh)
  case Nil
  then show ?case by simp
next
  case (Cons e es)
  obtain k c where e: "e = (k, c)" by (cases e)
  show ?case
    unfolding e by (simp add: Cons.IH update_conv' grade_sum_Cons grade_sum_absent or0_def)
qed

lemma exact_grades_append:
  "exact_grades mh (es @ fs) = exact_grades (exact_grades mh es) fs"
  by (induction es arbitrary: mh) auto

lemma or0_exact_grades:
  "or0 (map_of (exact_grades mh es) g) = or0 (map_of mh g) + grade_sum es g"
  by (simp add: get_exact_grades grade_sum_absent) (simp add: or0_def)

lemma hold_entries_Cons:
  "hold_entries ((k, gs) # hs) h = (if k = h then gs @ hold_entries hs h else hold_entries hs h)"
  by (simp add: hold_entries_def)

lemma hold_entries_absent: "h \<notin> fst ` set hs \<Longrightarrow> hold_entries hs h = []"
  by (induction hs) (auto simp: hold_entries_def)

lemma get_exact_holds:
  "map_of (exact_holds merged hs) h =
     (if h \<in> fst ` set hs
      then Some (exact_grades (case map_of merged h of None \<Rightarrow> [] | Some ob \<Rightarrow> ob)
                   (hold_entries hs h))
      else map_of merged h)"
proof (induction hs arbitrary: merged)
  case Nil
  then show ?case by simp
next
  case (Cons e hs)
  show ?case
  proof (cases "fst e = h")
    case True
    then obtain gs where e: "e = (h, gs)" by (cases e) auto
    show ?thesis
      unfolding e
      by (simp add: Cons.IH update_conv' hold_entries_Cons exact_grades_append
          hold_entries_absent Let_def)
  next
    case False
    then obtain k gs where e: "e = (k, gs)" "k \<noteq> h" by (cases e) auto
    show ?thesis
      unfolding e(1) using e(2) by (simp add: Cons.IH update_conv' hold_entries_Cons Let_def)
  qed
qed

lemma total_at_exact_holds:
  "total_at (exact_holds merged hs) h g = total_at merged h g + grade_sum (hold_entries hs h) g"
proof (cases "h \<in> fst ` set hs")
  case True
  then show ?thesis
    by (simp add: total_at_def get_exact_holds or0_exact_grades split: option.splits)
next
  case False
  then show ?thesis
    by (simp add: total_at_def get_exact_holds hold_entries_absent grade_sum_def)
qed

lemma total_at_Nil: "total_at [] h g = 0"
  by (simp add: total_at_def or0_def)

lemma angle_entries_absent: "h \<notin> angle_holds angles \<Longrightarrow> angle_entries angles h = []"
  by (induction angles)
     (auto simp: angle_entries_def angle_holds_def object_keys_def hold_entries_absent
           split: option.splits)

lemma get_exact_angles:
  "map_of (exact_angles merged angles) h =
     (if h \<in> angle_holds angles
      then Some (exact_grades (case map_of merged h of None \<Rightarrow> [] | Some ob \<Rightarrow> ob)
                   (angle_entries angles h))
      else map_of merged h)"
proof (induction angles arbitrary: merged)
  case Nil
  then show ?case by (simp add: angle_holds_def)
next
  case (Cons a angles)
  have split_holds: "angle_holds (a # angles) =
      (case holds a of None \<Rightarrow> {} | Some hs \<Rightarrow> set (object_keys hs)) \<union> angle_holds angles"
    by (simp add: angle_holds_def)
  have split_entries: "angle_entries (a # angles) h =
      (case holds a of None \<Rightarrow> [] | Some hs \<Rightarrow> hold_entries hs h) @ angle_entries angles h"
    by (simp add: angle_entries_def)
  show ?case
  proof (cases "holds a")
    case None
    then show ?thesis by (simp add: Cons.IH split_holds split_entries)
  next
    case (Some hs)
    show ?thesis
    proof (cases "h \<in> fst ` set hs")
      case True
      then show ?thesis
        using Some
        by (simp add: Cons.IH split_holds split_entries get_exact_holds object_keys_def
            exact_grades_append angle_entries_absent)
    next
      case False
      then show ?thesis
        using Some
        by (simp add: Cons.IH split_holds split_entries get_exact_holds object_keys_def
            hold_entries_absent)
    qed
  qed
qed

lemma get_exact_merge:
  "map_of (exact_merge m) h =
     (if h \<in> angle_holds (object_values m)
      then Some (exact_grades [] (angle_entries (object_values m) h))
      else None)"
  by (simp add: exact_merge_def get_exact_angles)

lemma get_exact_grades_empty:
  "map_of (exact_grades [] es) =
     (\<lambda>g. if g \<in> fst ` set_mset (mset es)
          then Some (sum_mset (image_mset snd (filter_mset (\<lambda>p. fst p = g) (mset es))))
          else None)"
proof
  fix g
  have "grade_sum es g = sum_mset (image_mset snd (filter_mset (\<lambda>p. fst p = g) (mset es)))"
    unfolding grade_sum_def by (simp flip: sum_mset_sum_list mset_filter mset_map)
  then show "map_of (exact_grades [] es) g =
     (if g \<in> fst ` set_mset (mset es)
          then Some (sum_mset (image_mset snd (filter_mset (\<lambda>p. fst p = g) (mset es))))
          else None)"
    by (simp add: get_exact_grades or0_def)
qed

lemma mset_angle_entries:
  "mset (angle_entries angles h) =
     (\<Sum>a \<in># mset angles. mset (case holds a of None \<Rightarrow> [] | Some hs \<Rightarrow> hold_entries hs h))"
  by (induction angles) (simp_all add: angle_entries_def)

lemma angle_holds_mset:
  "angle_holds angles =
     (\<Union>a \<in> set_mset (mset angles). case holds a of None \<Rightarrow> {} | Some hs \<Rightarrow> set (object_keys hs))"
  by (simp add: angle_holds_def)

lemma keys_exact_merge:
  "set (object_keys (exact_merge m)) = angle_holds (object_values m)"
proof -
  have "\<And>h. h \<in> fst ` set (exact_merge m) \<longleftrightarrow> h \<in> angle_holds (object_values m)"
    using get_exact_merge[of m] map_of_eq_None_iff[of "exact_merge m"]
    by (metis option.distinct(1))
  then show ?thesis by (auto simp: object_keys_def)
qed

lemma hold_totals_exact_merge_perm:
  assumes "mset m1 = mset m2"
  shows "hold_totals (exact_merge m1) = hold_totals (exact_merge m2)"
    and "set (object_keys (exact_merge m1)) = set (object_keys (exact_merge m2))"
proof -
  have v: "mset (object_values m1) = mset (object_values m2)"
    unfolding object_values_def using assms by (metis mset_map)
  have e: "\<And>h. mset (angle_entries (object_values m1) h) = mset (angle_entries (object_values m2) h)"
    unfolding mset_angle_entries v ..
  have k: "angle_holds (object_values m1) = angle_holds (object_values m2)"
    unfolding angle_holds_mset v ..
  show "hold_totals (exact_merge m1) = hold_totals (exact_merge m2)"
  proof
    fix h
    have "map_of (exact_grades [] (angle_entries (object_values m1) h)) =
          map_of (exact_grades [] (angle_entries (object_values m2) h))"
      unfolding get_exact_grades_empty e ..
    then show "hold_totals (exact_merge m1) h = hold_totals (exact_merge m2) h"
      unfolding hold_totals_def get_exact_merge k by simp
  qed
  show "set (object_keys (exact_merge m1)) = set (object_keys (exact_merge m2))"
    by (simp only: keys_exact_merge k)
qed


text \<open>
  \<^verbatim>\<open>mergeAllAngles\<close> agrees with the yardstick when the keys of the data are plain and
  no total exceeds \<open>2^53\<close>: loop by loop, the merge returns the yardstick's object.
\<close>

lemma update_nums: "AList.update g (Num v) (nums mh) = nums (AList.update g v mh)"
  by (induction mh) (auto simp: nums_def)

lemma update_counts_as_values:
  "AList.update h (nums x) (counts_as_values merged) = counts_as_values (AList.update h x merged)"
  by (induction merged) (auto simp: counts_as_values_def nums_def)

lemma map_of_counts_as_values:
  "map_of (counts_as_values merged) h = map_option nums (map_of merged h)"
  by (induction merged) (auto simp: counts_as_values_def nums_def)

lemma proto_inherited: "''__proto__'' \<in> set inherited_names"
  by (simp add: inherited_names_def)

lemma count_or_zero_nums:
  "g \<notin> set inherited_names \<Longrightarrow> count_or_zero (nums mh) g = Num (or0 (map_of mh g))"
  by (simp add: count_or_zero_def get_prop_def map_of_nums or0_def split: option.splits)

lemma set_prop_nums:
  "g \<notin> set inherited_names \<Longrightarrow> set_prop (nums mh) g (Num v) = nums (AList.update g v mh)"
  using proto_inherited by (auto simp: set_prop_def update_nums)

lemma sim_grades:
  assumes "\<forall>g \<in> fst ` set es. g \<notin> set inherited_names"
  shows "(\<forall>g. or0 (map_of mh g) + grade_sum es g \<le> 2 ^ 53) \<Longrightarrow>
     merge_grades (nums mh) es = Inr (nums (exact_grades mh es))"
  using assms
proof (induction es arbitrary: mh)
  case Nil
  then show ?case by simp
next
  case (Cons e es)
  obtain g c where e: "e = (g, c)" by (cases e)
  have g: "g \<notin> set inherited_names" and rest: "\<forall>g \<in> fst ` set es. g \<notin> set inherited_names"
    using Cons.prems(2) by (simp_all add: e)
  let ?v = "or0 (map_of mh g) + c"
  have "or0 (map_of mh g) + grade_sum (e # es) g \<le> 2 ^ 53" using Cons.prems(1) by blast
  then have le: "?v \<le> 2 ^ 53" by (simp add: e grade_sum_Cons)
  have step: "js_add (count_or_zero (nums mh) g) (Num c) = Inr (Num ?v)"
    using js_add_exact[OF le] by (simp add: count_or_zero_nums[OF g])
  have b: "\<forall>g'. or0 (map_of (AList.update g ?v mh) g') + grade_sum es g' \<le> 2 ^ 53"
  proof
    fix g'
    show "or0 (map_of (AList.update g ?v mh) g') + grade_sum es g' \<le> 2 ^ 53"
      using Cons.prems(1)[THEN spec, of g']
      by (cases "g' = g") (simp_all add: update_conv' e grade_sum_Cons or0_def)
  qed
  show ?case
    using Cons.IH[OF b rest] by (simp add: e step set_prop_nums[OF g])
qed

lemma sim_holds:
  assumes "plain_holds hs"
  shows "(\<forall>h g. total_at merged h g + grade_sum (hold_entries hs h) g \<le> 2 ^ 53) \<Longrightarrow>
     merge_holds (counts_as_values merged) hs = Inr (counts_as_values (exact_holds merged hs))"
  using assms
proof (induction hs arbitrary: merged)
  case Nil
  then show ?case by simp
next
  case (Cons e hs)
  obtain h grades where e: "e = (h, grades)" by (cases e)
  have h: "h \<notin> set inherited_names"
    and gr: "\<forall>g \<in> fst ` set grades. g \<notin> set inherited_names"
    and rest: "plain_holds hs"
    using Cons.prems(2) by (auto simp: e plain_holds_def list_all_iff)
  let ?mh = "case map_of merged h of None \<Rightarrow> [] | Some ob \<Rightarrow> ob"
  let ?x = "exact_grades ?mh grades"
  have t: "\<And>g. or0 (map_of ?mh g) = total_at merged h g"
    by (simp add: total_at_def or0_def split: option.splits)
  have "\<forall>g. or0 (map_of ?mh g) + grade_sum grades g \<le> 2 ^ 53"
  proof
    fix g
    have "total_at merged h g + grade_sum (hold_entries (e # hs) h) g \<le> 2 ^ 53"
      using Cons.prems(1) by blast
    then show "or0 (map_of ?mh g) + grade_sum grades g \<le> 2 ^ 53"
      by (simp add: t e hold_entries_Cons grade_sum_append)
  qed
  then have mg: "merge_grades (nums ?mh) grades = Inr (nums ?x)"
    by (rule sim_grades[OF gr])
  have b: "\<forall>h' g. total_at (AList.update h ?x merged) h' g + grade_sum (hold_entries hs h') g \<le> 2 ^ 53"
  proof (intro allI)
    fix h' g
    have p: "total_at merged h' g + grade_sum (hold_entries (e # hs) h') g \<le> 2 ^ 53"
      using Cons.prems(1) by blast
    show "total_at (AList.update h ?x merged) h' g + grade_sum (hold_entries hs h') g \<le> 2 ^ 53"
    proof (cases "h' = h")
      case True
      have "total_at (AList.update h ?x merged) h g = or0 (map_of ?mh g) + grade_sum grades g"
        by (simp add: total_at_def update_conv' or0_exact_grades)
      then show ?thesis
        using p by (simp add: True t e hold_entries_Cons grade_sum_append)
    next
      case False
      then show ?thesis
        using p by (simp add: total_at_def update_conv' e hold_entries_Cons)
    qed
  qed
  have look: "get_prop (counts_as_values merged) h =
      (case map_of merged h of None \<Rightarrow> Missing | Some ob \<Rightarrow> Own (nums ob))"
    using h by (simp add: get_prop_def map_of_counts_as_values split: option.splits)
  have n: "nums [] = []" by (simp add: nums_def)
  show ?case
    using Cons.IH[OF b rest] mg
    by (simp add: e look n update_counts_as_values Let_def split: option.splits)
qed

lemma sim_angles:
  assumes "list_all (\<lambda>a. case holds a of None \<Rightarrow> True | Some hs \<Rightarrow> plain_holds hs) angles"
  shows "(\<forall>h g. total_at merged h g + grade_sum (angle_entries angles h) g \<le> 2 ^ 53) \<Longrightarrow>
     merge_angles (counts_as_values merged) angles = Inr (counts_as_values (exact_angles merged angles))"
  using assms
proof (induction angles arbitrary: merged)
  case Nil
  then show ?case by simp
next
  case (Cons a angles)
  have rest: "list_all (\<lambda>a. case holds a of None \<Rightarrow> True | Some hs \<Rightarrow> plain_holds hs) angles"
    using Cons.prems(2) by simp
  have split_entries: "\<And>h. angle_entries (a # angles) h =
      (case holds a of None \<Rightarrow> [] | Some hs \<Rightarrow> hold_entries hs h) @ angle_entries angles h"
    by (simp add: angle_entries_def)
  show ?case
  proof (cases "holds a")
    case None
    have "\<forall>h g. total_at merged h g + grade_sum (angle_entries angles h) g \<le> 2 ^ 53"
      using Cons.prems(1) by (simp add: split_entries None)
    then show ?thesis
      using Cons.IH[OF _ rest] None by simp
  next
    case (Some hs)
    have ph: "plain_holds hs" using Cons.prems(2) Some by simp
    have p: "\<And>h g. total_at merged h g + grade_sum (hold_entries hs h) g
                 + grade_sum (angle_entries angles h) g \<le> 2 ^ 53"
      using Cons.prems(1) by (simp add: split_entries Some grade_sum_append add.assoc)
    have "\<forall>h g. total_at merged h g + grade_sum (hold_entries hs h) g \<le> 2 ^ 53"
    proof (intro allI)
      fix h g
      show "total_at merged h g + grade_sum (hold_entries hs h) g \<le> 2 ^ 53"
        using p[of h g] by simp
    qed
    then have mh: "merge_holds (counts_as_values merged) hs = Inr (counts_as_values (exact_holds merged hs))"
      by (rule sim_holds[OF ph])
    have "\<forall>h g. total_at (exact_holds merged hs) h g + grade_sum (angle_entries angles h) g \<le> 2 ^ 53"
      using p by (simp add: total_at_exact_holds)
    then show ?thesis
      using Cons.IH[OF _ rest] Some mh by simp
  qed
qed

lemma mergeAllAngles_exact:
  assumes "plain_keys m"
    and "\<forall>h g. grade_sum (angle_entries (object_values m) h) g \<le> 2 ^ 53"
  shows "mergeAllAngles m = Inr (counts_as_values (exact_merge m))"
proof -
  have e: "counts_as_values [] = []" by (simp add: counts_as_values_def)
  have "merge_angles (counts_as_values []) (object_values m)
          = Inr (counts_as_values (exact_angles [] (object_values m)))"
    using assms by (intro sim_angles) (simp_all add: plain_keys_def total_at_Nil)
  then show ?thesis
    by (simp add: mergeAllAngles_def exact_merge_def e)
qed

lemma hold_totals_counts_as_values:
  "hold_totals (counts_as_values x) h =
     map_option (\<lambda>f g. map_option Num (f g)) (hold_totals x h)"
  by (cases "map_of x h")
     (auto simp: hold_totals_def map_of_counts_as_values map_of_nums fun_eq_iff)

lemma keys_counts_as_values: "object_keys (counts_as_values x) = object_keys x"
  by (induction x) (auto simp: counts_as_values_def object_keys_def)


text \<open>
  C4, as it holds of the code. Take two enumerations of the same angle map, in which no
  hold identifier and no grade label is a name that objects inherit, and in which the counts
  entered for any one grade of any one hold sum to at most \<open>2^53\<close>. Then both merges
  return, the two results hold the same holds, each with the same grades and the same
  totals, and the holds of the result are the union of the holds of all angles. The merge of
  the empty map is empty.
\<close>

theorem mergeAllAngles_commutative:
  assumes "mset m1 = mset m2"
    and "plain_keys m1"
    and "\<forall>h g. grade_sum (angle_entries (object_values m1) h) g \<le> 2 ^ 53"
  shows "(\<exists>r1 r2. mergeAllAngles m1 = Inr r1 \<and> mergeAllAngles m2 = Inr r2
            \<and> hold_totals r1 = hold_totals r2
            \<and> set (object_keys r1) = set (object_keys r2)
            \<and> set (object_keys r1) =
                (\<Union>a \<in> set (object_values m1).
                    case holds a of None \<Rightarrow> {} | Some hs \<Rightarrow> set (object_keys hs)))
         \<and> mergeAllAngles [] = Inr []"
proof -
  have v: "mset (object_values m1) = mset (object_values m2)"
    unfolding object_values_def using assms(1) by (metis mset_map)
  then have sv: "set (object_values m1) = set (object_values m2)"
    by (metis set_mset_mset)
  have p2: "plain_keys m2"
    using assms(2) sv by (simp add: plain_keys_def list_all_iff)
  have e: "\<And>h. mset (angle_entries (object_values m1) h) = mset (angle_entries (object_values m2) h)"
    unfolding mset_angle_entries v ..
  have b2: "\<forall>h g. grade_sum (angle_entries (object_values m2) h) g \<le> 2 ^ 53"
    using assms(3) grade_sum_mset[OF e] by simp
  have r1: "mergeAllAngles m1 = Inr (counts_as_values (exact_merge m1))"
    using assms(2,3) by (rule mergeAllAngles_exact)
  have r2: "mergeAllAngles m2 = Inr (counts_as_values (exact_merge m2))"
    using p2 b2 by (rule mergeAllAngles_exact)
  have t: "hold_totals (counts_as_values (exact_merge m1)) = hold_totals (counts_as_values (exact_merge m2))"
    by (rule ext) (simp add: hold_totals_counts_as_values hold_totals_exact_merge_perm(1)[OF assms(1)])
  have k: "set (object_keys (counts_as_values (exact_merge m1)))
           = set (object_keys (counts_as_values (exact_merge m2)))"
    by (simp only: keys_counts_as_values hold_totals_exact_merge_perm(2)[OF assms(1)])
  have u: "set (object_keys (counts_as_values (exact_merge m1))) =
                (\<Union>a \<in> set (object_values m1).
                    case holds a of None \<Rightarrow> {} | Some hs \<Rightarrow> set (object_keys hs))"
    by (simp only: keys_counts_as_values keys_exact_merge angle_holds_def)
  have n: "mergeAllAngles [] = Inr []"
    by (simp add: mergeAllAngles_def object_values_def)
  from r1 r2 t k u n show ?thesis by blast
qed

theorem mergeAllAngles_commutative_witness:
  "mset [(''20'', \<lparr>holds = Some [(''H1'', [(''V3'', 2), (''V4'', 1)])], boulders = None\<rparr>),
         (''40'', \<lparr>holds = Some [(''H2'', [(''V3'', 5)]), (''H1'', [(''V4'', 5)])], boulders = None\<rparr>)]
   = mset [(''40'', \<lparr>holds = Some [(''H2'', [(''V3'', 5)]), (''H1'', [(''V4'', 5)])], boulders = None\<rparr>),
           (''20'', \<lparr>holds = Some [(''H1'', [(''V3'', 2), (''V4'', 1)])], boulders = None\<rparr>)]
   \<and> plain_keys [(''20'', \<lparr>holds = Some [(''H1'', [(''V3'', 2), (''V4'', 1)])], boulders = None\<rparr>),
         (''40'', \<lparr>holds = Some [(''H2'', [(''V3'', 5)]), (''H1'', [(''V4'', 5)])], boulders = None\<rparr>)]
   \<and> mergeAllAngles
         [(''20'', \<lparr>holds = Some [(''H1'', [(''V3'', 2), (''V4'', 1)])], boulders = None\<rparr>),
          (''40'', \<lparr>holds = Some [(''H2'', [(''V3'', 5)]), (''H1'', [(''V4'', 5)])], boulders = None\<rparr>)]
       = Inr [(''H1'', [(''V3'', Num 2), (''V4'', Num 6)]), (''H2'', [(''V3'', Num 5)])]
   \<and> mergeAllAngles
         [(''40'', \<lparr>holds = Some [(''H2'', [(''V3'', 5)]), (''H1'', [(''V4'', 5)])], boulders = None\<rparr>),
          (''20'', \<lparr>holds = Some [(''H1'', [(''V3'', 2), (''V4'', 1)])], boulders = None\<rparr>)]
       = Inr [(''H2'', [(''V3'', Num 5)]), (''H1'', [(''V4'', Num 6), (''V3'', Num 2)])]
   \<and> hold_totals [(''H1'', [(''V3'', Num 2), (''V4'', Num 6)]), (''H2'', [(''V3'', Num 5)])]
       = hold_totals [(''H2'', [(''V3'', Num 5)]), (''H1'', [(''V4'', Num 6), (''V3'', Num 2)])]"
proof -
  let ?m1 = "[(''20'', \<lparr>holds = Some [(''H1'', [(''V3'', 2), (''V4'', 1 :: nat)])], boulders = None :: boulderInfo obj option\<rparr>),
         (''40'', \<lparr>holds = Some [(''H2'', [(''V3'', 5)]), (''H1'', [(''V4'', 5)])], boulders = None\<rparr>)]"
  let ?m2 = "[(''40'', \<lparr>holds = Some [(''H2'', [(''V3'', 5)]), (''H1'', [(''V4'', 5 :: nat)])], boulders = None :: boulderInfo obj option\<rparr>),
           (''20'', \<lparr>holds = Some [(''H1'', [(''V3'', 2), (''V4'', 1)])], boulders = None\<rparr>)]"
  have h1: "mset ?m1 = mset ?m2" by simp
  have h2: "plain_keys ?m1"
    by (simp add: plain_keys_def plain_holds_def object_values_def inherited_names_def)
  have h3: "\<forall>h g. grade_sum (angle_entries (object_values ?m1) h) g \<le> 2 ^ 53"
    by (simp add: grade_sum_def angle_entries_def hold_entries_def object_values_def)
  have r1: "mergeAllAngles ?m1 = Inr [(''H1'', [(''V3'', Num 2), (''V4'', Num 6)]), (''H2'', [(''V3'', Num 5)])]"
    by (simp add: run_defs)
  have r2: "mergeAllAngles ?m2 = Inr [(''H2'', [(''V3'', Num 5)]), (''H1'', [(''V4'', Num 6), (''V3'', Num 2)])]"
    by (simp add: run_defs)
  from mergeAllAngles_commutative[OF h1 h2 h3] h1 h2 r1 r2 show ?thesis by simp
qed


text \<open>
  C4 for every angle map does not hold. A hold \<^verbatim>\<open>toString\<close> of the data is missing
  from the result, since \<^verbatim>\<open>merged["toString"]\<close> is the inherited method and no own
  property is made. The counts \<open>2^53\<close>, 1, 1 of one grade total \<open>2^53\<close> in this order and
  \<open>2^53 + 2\<close> with the large count last. The counts 5 and 2 under the grade
  \<^verbatim>\<open>constructor\<close> are appended to the text of \<^verbatim>\<open>Object\<close> in the order of the merge.
\<close>

theorem mergeAllAngles_counterexample:
  "object_keys [(''toString'', [(''V3'', 5 :: nat)])] = [''toString'']
   \<and> mergeAllAngles [(''20'', \<lparr>holds = Some [(''toString'', [(''V3'', 5)])], boulders = None\<rparr>)] = Inr []
   \<and> mset [(''a'', \<lparr>holds = Some [(''H1'', [(''V3'', 2 ^ 53)])], boulders = None\<rparr>),
           (''b'', \<lparr>holds = Some [(''H1'', [(''V3'', 1)])], boulders = None\<rparr>),
           (''c'', \<lparr>holds = Some [(''H1'', [(''V3'', 1)])], boulders = None\<rparr>)]
     = mset [(''b'', \<lparr>holds = Some [(''H1'', [(''V3'', 1)])], boulders = None\<rparr>),
             (''c'', \<lparr>holds = Some [(''H1'', [(''V3'', 1)])], boulders = None\<rparr>),
             (''a'', \<lparr>holds = Some [(''H1'', [(''V3'', 2 ^ 53)])], boulders = None\<rparr>)]
   \<and> mergeAllAngles
       [(''a'', \<lparr>holds = Some [(''H1'', [(''V3'', 2 ^ 53)])], boulders = None\<rparr>),
        (''b'', \<lparr>holds = Some [(''H1'', [(''V3'', 1)])], boulders = None\<rparr>),
        (''c'', \<lparr>holds = Some [(''H1'', [(''V3'', 1)])], boulders = None\<rparr>)]
     = Inr [(''H1'', [(''V3'', Num 9007199254740992)])]
   \<and> mergeAllAngles
       [(''b'', \<lparr>holds = Some [(''H1'', [(''V3'', 1)])], boulders = None\<rparr>),
        (''c'', \<lparr>holds = Some [(''H1'', [(''V3'', 1)])], boulders = None\<rparr>),
        (''a'', \<lparr>holds = Some [(''H1'', [(''V3'', 2 ^ 53)])], boulders = None\<rparr>)]
     = Inr [(''H1'', [(''V3'', Num 9007199254740994)])]
   \<and> mergeAllAngles
       [(''a'', \<lparr>holds = Some [(''H1'', [(''constructor'', 5)])], boulders = None\<rparr>),
        (''b'', \<lparr>holds = Some [(''H1'', [(''constructor'', 2)])], boulders = None\<rparr>)]
     = Inr [(''H1'', [(''constructor'', Str [] ''constructor'' [Ch CHR ''5'', Ch CHR ''2''])])]
   \<and> mergeAllAngles
       [(''b'', \<lparr>holds = Some [(''H1'', [(''constructor'', 2)])], boulders = None\<rparr>),
        (''a'', \<lparr>holds = Some [(''H1'', [(''constructor'', 5)])], boulders = None\<rparr>)]
     = Inr [(''H1'', [(''constructor'', Str [] ''constructor'' [Ch CHR ''2'', Ch CHR ''5''])])]"
  by (simp add: run_defs)

end
